theory Spec2Isabelle
  imports Complex_Main "HOL-Library.Multiset"
begin

section \<open>JavaScript numbers and strings as the service uses them\<close>

text \<open>
  \<^verbatim>\<open>processNextChunk\<close> computes with JavaScript numbers in three places: the
  number of chunks \<^verbatim>\<open>Math.ceil(history.history.length / chunkSize)\<close>, the progress
  index read back with \<^verbatim>\<open>parseInt(progress, 10)\<close>, and the slice bounds. They are
  integers; the model keeps the integer values exactly (type \<open>int\<close>) and adds the
  three non-finite values that this arithmetic can produce from integer inputs
  (division by zero, a progress string that is not a number). Rounding of indices
  beyond \<open>2^53\<close> and fractional chunk sizes are outside the model. The numbers of
  the reports, which the aggregation adds, are modelled with the rounding of the
  addition further below.
\<close>

datatype jsnum = Num int | PosInf | NegInf | NaN

text \<open>\<^verbatim>\<open>Math.ceil(a / b)\<close> for an array length \<open>a\<close> and an integer \<open>b\<close>.\<close>

definition ceil_div :: "nat \<Rightarrow> int \<Rightarrow> jsnum" where
  "ceil_div a b =
     (if b = 0 then (if a = 0 then NaN else PosInf)
      else Num (- ((- int a) div b)))"

text \<open>The relational operator \<^verbatim>\<open>>=\<close>: false whenever an operand is NaN.\<close>

fun js_ge :: "jsnum \<Rightarrow> jsnum \<Rightarrow> bool" where
  "js_ge NaN _ = False"
| "js_ge _ NaN = False"
| "js_ge (Num a) (Num b) = (b \<le> a)"
| "js_ge PosInf _ = True"
| "js_ge _ NegInf = True"
| "js_ge (Num _) PosInf = False"
| "js_ge NegInf _ = False"

text \<open>The relational operator \<^verbatim>\<open><\<close>, used to state the non-terminal case.\<close>

fun js_lt :: "jsnum \<Rightarrow> jsnum \<Rightarrow> bool" where
  "js_lt NaN _ = False"
| "js_lt _ NaN = False"
| "js_lt (Num a) (Num b) = (a < b)"
| "js_lt PosInf _ = False"
| "js_lt _ NegInf = False"
| "js_lt (Num _) PosInf = True"
| "js_lt NegInf _ = True"

fun js_mul :: "jsnum \<Rightarrow> jsnum \<Rightarrow> jsnum" where
  "js_mul NaN _ = NaN"
| "js_mul _ NaN = NaN"
| "js_mul (Num a) (Num b) = Num (a * b)"
| "js_mul PosInf (Num b) = (if b = 0 then NaN else if 0 < b then PosInf else NegInf)"
| "js_mul NegInf (Num b) = (if b = 0 then NaN else if 0 < b then NegInf else PosInf)"
| "js_mul (Num a) PosInf = (if a = 0 then NaN else if 0 < a then PosInf else NegInf)"
| "js_mul (Num a) NegInf = (if a = 0 then NaN else if 0 < a then NegInf else PosInf)"
| "js_mul PosInf PosInf = PosInf"
| "js_mul NegInf NegInf = PosInf"
| "js_mul PosInf NegInf = NegInf"
| "js_mul NegInf PosInf = NegInf"

fun js_add :: "jsnum \<Rightarrow> jsnum \<Rightarrow> jsnum" where
  "js_add NaN _ = NaN"
| "js_add _ NaN = NaN"
| "js_add (Num a) (Num b) = Num (a + b)"
| "js_add PosInf NegInf = NaN"
| "js_add NegInf PosInf = NaN"
| "js_add PosInf _ = PosInf"
| "js_add NegInf _ = NegInf"
| "js_add (Num _) PosInf = PosInf"
| "js_add (Num _) NegInf = NegInf"

subsection \<open>Number to string and back\<close>

definition digit_char :: "nat \<Rightarrow> char" where
  "digit_char d = char_of (48 + d)"

fun dec_of_nat :: "nat \<Rightarrow> string" where
  "dec_of_nat n = (if n < 10 then [digit_char n] else dec_of_nat (n div 10) @ [digit_char (n mod 10)])"

declare dec_of_nat.simps [simp del]

text \<open>\<^verbatim>\<open>Number.prototype.toString()\<close> and the conversion inside a template literal.\<close>

fun js_toString :: "jsnum \<Rightarrow> string" where
  "js_toString (Num i) = (if i < 0 then CHR ''-'' # dec_of_nat (nat (- i)) else dec_of_nat (nat i))"
| "js_toString PosInf = ''Infinity''"
| "js_toString NegInf = ''-Infinity''"
| "js_toString NaN = ''NaN''"

definition is_digit :: "char \<Rightarrow> bool" where
  "is_digit c = ((48::nat) \<le> of_char c \<and> of_char c \<le> (57::nat))"

definition is_white_space :: "char \<Rightarrow> bool" where
  "is_white_space c = (of_char c \<in> {9, 10, 11, 12, 13, 32, 160::nat})"

definition digits_value :: "string \<Rightarrow> nat" where
  "digits_value ds = foldl (\<lambda>acc c. 10 * acc + (of_char c - (48::nat))) (0::nat) ds"

text \<open>
  \<^verbatim>\<open>parseInt(s, 10)\<close>: leading white space is skipped, one sign is read, then the
  longest run of decimal digits; with no digit the result is NaN, and whatever follows
  the digits is ignored.
\<close>

definition parseInt :: "string \<Rightarrow> jsnum" where
  "parseInt s =
     (let t = dropWhile is_white_space s;
          neg = (t \<noteq> [] \<and> hd t = CHR ''-'');
          u = (if t \<noteq> [] \<and> (hd t = CHR ''-'' \<or> hd t = CHR ''+'') then tl t else t);
          ds = takeWhile is_digit u
      in if ds = [] then NaN
         else Num ((if neg then - 1 else 1) * int (digits_value ds)))"

subsection \<open>Array.prototype.slice\<close>

text \<open>
  The relative index of \<^verbatim>\<open>slice\<close>: NaN counts as 0, a negative index counts from
  the end, and the result is clamped to the array.
\<close>

fun relative_index :: "nat \<Rightarrow> jsnum \<Rightarrow> nat" where
  "relative_index len NaN = 0"
| "relative_index len NegInf = 0"
| "relative_index len PosInf = len"
| "relative_index len (Num i) = (if i < 0 then nat (max (int len + i) 0) else min (nat i) len)"

definition js_slice :: "'a list \<Rightarrow> jsnum \<Rightarrow> jsnum \<Rightarrow> 'a list" where
  "js_slice xs start end' =
     (let k = relative_index (length xs) start;
          final = relative_index (length xs) end'
      in take (final - k) (drop k xs))"

fun join :: "string \<Rightarrow> string list \<Rightarrow> string" where
  "join sep [] = []"
| "join sep [x] = x"
| "join sep (x # y # ys) = x @ sep @ join sep (y # ys)"

section \<open>The numbers of the reports and their addition\<close>

text \<open>
  The fields \<^verbatim>\<open>totalVisits\<close>, \<^verbatim>\<open>visits\<close> and the category counts are
  JavaScript numbers, that is, doubles. A finite double is modelled by its exact value,
  a rational number. The operator \<^verbatim>\<open>+\<close> of the code is the addition of doubles:
  the exact sum rounded to the nearest double, to the one with the even significand when
  two are equally near. \<open>round_double\<close> is this rounding: a double has 53
  significant bits and its last bit is worth at least \<open>2^-1074\<close>. A sum of
  magnitude \<open>2^1024\<close> or more, which is Infinity in the code, is outside the model.
\<close>

function bit_length :: "int \<Rightarrow> int" where
  "bit_length n = (if n \<le> 0 then 0 else 1 + bit_length (n div 2))"
  by pat_completeness auto
termination
  by (relation "measure nat") auto

declare bit_length.simps [simp del]

text \<open>For a positive \<open>q\<close>, the integer \<open>k\<close> with \<open>2^k \<le> q < 2^(k+1)\<close>.\<close>

definition floor_log2 :: "rat \<Rightarrow> int" where
  "floor_log2 q =
     (if 1 \<le> q then bit_length \<lfloor>q\<rfloor> - 1
      else - bit_length (\<lceil>1 / q\<rceil> - 1))"

definition round_half_even :: "rat \<Rightarrow> int" where
  "round_half_even x =
     (let f = \<lfloor>x\<rfloor>; r = x - of_int f
      in if r < 1 / 2 then f
         else if 1 / 2 < r then f + 1
         else if even f then f else f + 1)"

definition scale2 :: "rat \<Rightarrow> int \<Rightarrow> rat" where
  "scale2 x e = (if 0 \<le> e then x * 2 ^ nat e else x / 2 ^ nat (- e))"

definition round_double :: "rat \<Rightarrow> rat" where
  "round_double q =
     (if q = 0 then 0
      else (let e = max (floor_log2 \<bar>q\<bar> - 52) (- 1074)
            in scale2 (of_int (round_half_even (scale2 q (- e)))) e))"

definition js_plus :: "rat \<Rightarrow> rat \<Rightarrow> rat" where
  "js_plus a b = round_double (a + b)"

section \<open>Data model\<close>

text \<open>
  The report shape \<^verbatim>\<open>DailyReport\<close> of the service. A JavaScript object with string
  keys (\<^verbatim>\<open>categories\<close>) is the list of its properties in insertion order.
\<close>

record site =
  url :: string
  category :: string
  visits :: rat

record category_frequency =
  cf_category :: string
  frequency :: rat

record DailyReport =
  totalVisits :: rat
  categories :: "(string \<times> rat) list"
  mostVisitedSites :: "site list"
  mostFrequentCategory :: category_frequency
  mostFrequentSite :: site

text \<open>
  An entry of the history array, \<^verbatim>\<open>any[]\<close> in the code: \<^verbatim>\<open>null\<close>, or a value
  of which the code reads the properties \<^verbatim>\<open>url\<close> and \<^verbatim>\<open>title\<close>, each given
  by its text, or absent (\<^verbatim>\<open>undefined\<close>).
\<close>

datatype history_item = NullItem | HistoryItem "string option" "string option"

datatype account = Account string string

text \<open>
  The documents the service stores under its keys: the history payload
  \<^verbatim>\<open>{account, history}\<close> (a field that was \<^verbatim>\<open>undefined\<close> when stored is absent),
  the progress counter as a string, and a report.
\<close>

datatype doc =
    HistoryDoc "account option" "history_item list option"
  | StrDoc string
  | ReportDoc DailyReport

type_synonym redis = "string \<Rightarrow> doc option"

datatype error = Error string | TypeError | SyntaxError

text \<open>Truthiness of a stored document: only the empty string is falsy.\<close>

fun truthy :: "doc \<Rightarrow> bool" where
  "truthy (StrDoc s) = (s \<noteq> [])"
| "truthy _ = True"

subsection \<open>Keys\<close>

definition redisKey :: "string \<Rightarrow> string \<Rightarrow> string" where
  "redisKey date' email' = ''browser-history:'' @ date' @ '':'' @ email'"

definition progressKey :: "string \<Rightarrow> string \<Rightarrow> string" where
  "progressKey date' email' = ''chunk-progress:'' @ date' @ '':'' @ email'"

definition chunkKey :: "string \<Rightarrow> string \<Rightarrow> jsnum \<Rightarrow> string" where
  "chunkKey date' email' chunkIndex =
     ''chunk-report:'' @ date' @ '':'' @ email' @ '':'' @ js_toString chunkIndex"

definition reportKey :: "string \<Rightarrow> string \<Rightarrow> string" where
  "reportKey date' email' = ''daily-report:'' @ date' @ '':'' @ email'"

subsection \<open>Writes\<close>

type_synonym redis_write = "string \<times> doc"

text \<open>
  \<^verbatim>\<open>redisService.set(key, value)\<close> is the only write of the service. An operation
  is modelled by the list of writes it performs, in the order of its \<^verbatim>\<open>await\<close>s, and
  its result; running it applies the writes to the store. A run that is cut off after
  \<open>n\<close> writes has applied the first \<open>n\<close> of them.
\<close>

definition apply_writes :: "redis_write list \<Rightarrow> redis \<Rightarrow> redis" where
  "apply_writes ws store = fold (\<lambda>(k, v) s. s(k \<mapsto> v)) ws store"

section \<open>The classifier call and its absorption: analyzeChunk\<close>

definition neutralReport :: DailyReport where
  "neutralReport =
     \<lparr>totalVisits = 0, categories = [], mostVisitedSites = [],
      mostFrequentCategory = \<lparr>cf_category = ''General'', frequency = 0\<rparr>,
      mostFrequentSite = \<lparr>url = [], category = ''General'', visits = 0\<rparr>\<rparr>"

text \<open>
  What the external completion call did: it threw (network error, malformed completion
  object), or it returned a completion whose first choice has a message content, or
  none (\<^verbatim>\<open>completion.choices[0]?.message?.content\<close> is undefined or null).
\<close>

datatype groq_result = GroqThrows error | GroqContent "string option"

text \<open>
  One line of the prompt, \<^verbatim>\<open>${item.url} - ${item.title || ''}\<close>. Reading a
  property of \<^verbatim>\<open>null\<close> throws a TypeError; an absent \<^verbatim>\<open>url\<close> prints as
  \<open>undefined\<close>.
\<close>

fun item_line :: "history_item \<Rightarrow> error + string" where
  "item_line NullItem = Inl TypeError"
| "item_line (HistoryItem u t) =
     Inr ((case u of None \<Rightarrow> ''undefined'' | Some text \<Rightarrow> text)
          @ '' - '' @ (case t of None \<Rightarrow> [] | Some title \<Rightarrow> title))"

text \<open>\<^verbatim>\<open>chunk.map(...)\<close>: the lines in order, or the first error.\<close>

fun item_lines :: "history_item list \<Rightarrow> error + string list" where
  "item_lines [] = Inr []"
| "item_lines (item # items) =
     (case item_line item of
        Inl err \<Rightarrow> Inl err
      | Inr line \<Rightarrow>
          (case item_lines items of
             Inl err \<Rightarrow> Inl err
           | Inr lines \<Rightarrow> Inr (line # lines)))"

definition historyText :: "history_item list \<Rightarrow> error + string" where
  "historyText chunk =
     (case item_lines chunk of
        Inl err \<Rightarrow> Inl err
      | Inr lines \<Rightarrow> Inr (join [CHR 0x0A] lines))"

text \<open>
  \<^verbatim>\<open>responseContent.match(/\{[\s\S]*\}/)\<close>: the match starts at the first opening
  brace that has a closing brace after it, and the greedy star runs to the last closing
  brace of the string. The result is \<^verbatim>\<open>jsonMatch[0]\<close>, or None for null.
\<close>

definition jsonMatch :: "string \<Rightarrow> string option" where
  "jsonMatch s =
     (let t = dropWhile (\<lambda>c. c \<noteq> CHR ''{'') s
      in if t = [] then None
         else if CHR ''}'' \<in> set (tl t)
           then Some (CHR ''{'' # rev (dropWhile (\<lambda>c. c \<noteq> CHR ''}'') (rev (tl t))))
           else None)"

text \<open>
  The body of the \<^verbatim>\<open>try\<close> block, for the history text that the prompt carries.
  Two things are outside the repository and are parameters: \<open>groq\<close>, the completion
  call as a function of the variable part of the prompt (the history text; the
  instructions around it are constant), and \<open>JSON_parse\<close>, the runtime's
  \<^verbatim>\<open>JSON.parse\<close> read at the declared result type \<^verbatim>\<open>DailyReport\<close>, with None
  for a thrown SyntaxError.
\<close>

definition analyzeChunk_try ::
  "(string \<Rightarrow> groq_result) \<Rightarrow> (string \<Rightarrow> DailyReport option) \<Rightarrow> string
     \<Rightarrow> error + DailyReport" where
  "analyzeChunk_try groq JSON_parse text =
     (case groq text of
        GroqThrows err \<Rightarrow> Inl err
      | GroqContent content \<Rightarrow>
          (let responseContent = (case content of None \<Rightarrow> [] | Some c \<Rightarrow> c)
           in case jsonMatch responseContent of
                None \<Rightarrow> Inl (Error ''Invalid JSON format in AI response.'')
              | Some m \<Rightarrow>
                  (case JSON_parse m of
                     None \<Rightarrow> Inl SyntaxError
                   | Some report \<Rightarrow> Inr report)))"

text \<open>
  The \<^verbatim>\<open>try\<close> statement with its \<^verbatim>\<open>catch\<close> block, which turns every error of
  the body into the neutral report.
\<close>

definition analyzeChunk_catch ::
  "(string \<Rightarrow> groq_result) \<Rightarrow> (string \<Rightarrow> DailyReport option) \<Rightarrow> string
     \<Rightarrow> DailyReport" where
  "analyzeChunk_catch groq JSON_parse text =
     (case analyzeChunk_try groq JSON_parse text of
        Inl err \<Rightarrow> neutralReport
      | Inr report \<Rightarrow> report)"

text \<open>
  The whole function: the history text is built first, outside the \<^verbatim>\<open>try\<close>
  statement, so an error of that step leaves the function.
\<close>

definition analyzeChunk ::
  "(string \<Rightarrow> groq_result) \<Rightarrow> (string \<Rightarrow> DailyReport option) \<Rightarrow> history_item list
     \<Rightarrow> error + DailyReport" where
  "analyzeChunk groq JSON_parse chunk =
     (case historyText chunk of
        Inl err \<Rightarrow> Inl err
      | Inr text \<Rightarrow> Inr (analyzeChunk_catch groq JSON_parse text))"

section \<open>Chunk progress: processNextChunk\<close>

definition getHistory :: "redis \<Rightarrow> string \<Rightarrow> string \<Rightarrow> error + (account \<times> history_item list)" where
  "getHistory store date' email' =
     (case store (redisKey date' email') of
        Some (HistoryDoc (Some a) (Some h)) \<Rightarrow> Inr (a, h)
      | _ \<Rightarrow> Inl (Error (''No history found for the date: '' @ date' @ '' and email: '' @ email')))"

text \<open>\<^verbatim>\<open>parseInt\<close> of a stored document: an object converts to a string with no digit.\<close>

fun parseInt_doc :: "doc \<Rightarrow> jsnum" where
  "parseInt_doc (StrDoc s) = parseInt s"
| "parseInt_doc _ = NaN"

definition getChunkProgress :: "redis \<Rightarrow> string \<Rightarrow> string \<Rightarrow> jsnum" where
  "getChunkProgress store date' email' =
     (case store (progressKey date' email') of
        None \<Rightarrow> Num 0
      | Some progress \<Rightarrow> (if truthy progress then parseInt_doc progress else Num 0))"

definition setChunkProgress :: "string \<Rightarrow> string \<Rightarrow> jsnum \<Rightarrow> redis_write" where
  "setChunkProgress date' email' progress = (progressKey date' email', StrDoc (js_toString progress))"

record advance_result =
  completed :: bool

definition processNextChunk_trace ::
  "(string \<Rightarrow> groq_result) \<Rightarrow> (string \<Rightarrow> DailyReport option) \<Rightarrow> redis \<Rightarrow> string \<Rightarrow> string \<Rightarrow> int
     \<Rightarrow> error + (redis_write list \<times> advance_result)" where
  "processNextChunk_trace groq JSON_parse store date' email' chunkSize =
     (case getHistory store date' email' of
        Inl err \<Rightarrow> Inl err
      | Inr (a, h) \<Rightarrow>
          (let totalChunks = ceil_div (length h) chunkSize;
               currentChunkIndex = getChunkProgress store date' email'
           in if js_ge currentChunkIndex totalChunks then Inr ([], \<lparr>completed = True\<rparr>)
              else
                (let start = js_mul currentChunkIndex (Num chunkSize);
                     end' = js_add start (Num chunkSize);
                     chunk = js_slice h start end'
                 in case analyzeChunk groq JSON_parse chunk of
                      Inl err \<Rightarrow> Inl err
                    | Inr chunkReport \<Rightarrow>
                        Inr ([(chunkKey date' email' currentChunkIndex, ReportDoc chunkReport),
                              setChunkProgress date' email' (js_add currentChunkIndex (Num 1))],
                             \<lparr>completed = False\<rparr>))))"

text \<open>The complete call: all writes applied.\<close>

definition processNextChunk ::
  "(string \<Rightarrow> groq_result) \<Rightarrow> (string \<Rightarrow> DailyReport option) \<Rightarrow> redis \<Rightarrow> string \<Rightarrow> string \<Rightarrow> int
     \<Rightarrow> error + (advance_result \<times> redis)" where
  "processNextChunk groq JSON_parse store date' email' chunkSize =
     (case processNextChunk_trace groq JSON_parse store date' email' chunkSize of
        Inl err \<Rightarrow> Inl err
      | Inr (ws, res) \<Rightarrow> Inr (res, apply_writes ws store))"

text \<open>The store left behind by a call that stops after its first \<open>n\<close> writes.\<close>

definition processNextChunk_interrupted ::
  "nat \<Rightarrow> (string \<Rightarrow> groq_result) \<Rightarrow> (string \<Rightarrow> DailyReport option) \<Rightarrow> redis \<Rightarrow> string \<Rightarrow> string \<Rightarrow> int
     \<Rightarrow> redis" where
  "processNextChunk_interrupted n groq JSON_parse store date' email' chunkSize =
     (case processNextChunk_trace groq JSON_parse store date' email' chunkSize of
        Inl err \<Rightarrow> store
      | Inr (ws, res) \<Rightarrow> apply_writes (take n ws) store)"

text \<open>Repeated calls, each with its own classifier behaviour, threading the store.\<close>

fun processNextChunk_repeat ::
  "(string \<Rightarrow> groq_result) list \<Rightarrow> (string \<Rightarrow> DailyReport option) \<Rightarrow> redis \<Rightarrow> string \<Rightarrow> string \<Rightarrow> int
     \<Rightarrow> error + (advance_result list \<times> redis)" where
  "processNextChunk_repeat [] JSON_parse store date' email' chunkSize = Inr ([], store)"
| "processNextChunk_repeat (groq # gs) JSON_parse store date' email' chunkSize =
     (case processNextChunk groq JSON_parse store date' email' chunkSize of
        Inl err \<Rightarrow> Inl err
      | Inr (res, store') \<Rightarrow>
          (case processNextChunk_repeat gs JSON_parse store' date' email' chunkSize of
             Inl err \<Rightarrow> Inl err
           | Inr (rs, store'') \<Rightarrow> Inr (res # rs, store'')))"

section \<open>Aggregation: extractMainUrl and aggregateReports\<close>

text \<open>
  \<^verbatim>\<open>new URL(fullUrl)\<close> is the runtime's URL parser, a parameter of the model: None
  when the constructor throws, otherwise the properties \<^verbatim>\<open>protocol\<close> (the scheme
  with its colon), \<^verbatim>\<open>host\<close> (with the port, when the URL names one that is not
  the scheme's default) and \<^verbatim>\<open>pathname\<close> of the parsed URL.
\<close>

record parsed_url =
  protocol :: string
  host :: string
  pathname :: string

text \<open>
  The property \<^verbatim>\<open>origin\<close> as the runtime computes it from the parsed URL: scheme,
  \<open>//\<close> and host for the schemes http, https, ws, wss and ftp; for a blob URL the
  origin of the URL in its path when that one has the scheme http or https; and the
  string \<open>null\<close> for every other URL (file, chrome, about, mailto, data and the
  rest).
\<close>

definition url_origin :: "(string \<Rightarrow> parsed_url option) \<Rightarrow> parsed_url \<Rightarrow> string" where
  "url_origin URL u =
     (if protocol u \<in> {''http:'', ''https:'', ''ws:'', ''wss:'', ''ftp:''}
      then protocol u @ ''//'' @ host u
      else if protocol u = ''blob:'' \<and> pathname u \<noteq> []
        then (case URL (pathname u) of
                None \<Rightarrow> ''null''
              | Some out \<Rightarrow>
                  (if protocol out \<in> {''http:'', ''https:''}
                   then protocol out @ ''//'' @ host out
                   else ''null''))
      else ''null'')"

fun split_on :: "char \<Rightarrow> string \<Rightarrow> string list" where
  "split_on c [] = [[]]"
| "split_on c (x # xs) =
     (if x = c then [] # split_on c xs
      else (case split_on c xs of
              [] \<Rightarrow> [[x]]
            | y # ys \<Rightarrow> (x # y) # ys))"

definition extractMainUrl :: "(string \<Rightarrow> parsed_url option) \<Rightarrow> string \<Rightarrow> string" where
  "extractMainUrl URL fullUrl =
     (case URL fullUrl of
        None \<Rightarrow> fullUrl
      | Some u \<Rightarrow>
          (if pathname u = [] \<or> pathname u = ''/'' \<or> length (split_on CHR ''/'' (pathname u)) \<le> 2
           then url_origin URL u @ ''/''
           else url_origin URL u @ ''/''))"

subsection \<open>Map and object updates\<close>

text \<open>
  A JavaScript \<^verbatim>\<open>Map\<close> and the properties of an object are lists of key/value
  pairs in insertion order; setting an existing key keeps its position.
\<close>

fun map_set :: "'k \<Rightarrow> 'v \<Rightarrow> ('k \<times> 'v) list \<Rightarrow> ('k \<times> 'v) list" where
  "map_set k v [] = [(k, v)]"
| "map_set k v (p # ps) = (if fst p = k then (k, v) # ps else p # map_set k v ps)"

definition map_has :: "'k \<Rightarrow> ('k \<times> 'v) list \<Rightarrow> bool" where
  "map_has k m = (map_of m k \<noteq> None)"

text \<open>
  \<^verbatim>\<open>Object.entries\<close> lists the array-index keys first, in ascending numeric order,
  then the other string keys in insertion order.
\<close>

definition is_array_index :: "string \<Rightarrow> bool" where
  "is_array_index k =
     (k \<noteq> [] \<and> list_all is_digit k \<and> (k = ''0'' \<or> hd k \<noteq> CHR ''0'')
        \<and> digits_value k < 4294967295)"

definition Object_entries :: "(string \<times> 'v) list \<Rightarrow> (string \<times> 'v) list" where
  "Object_entries obj =
     sort_key (\<lambda>p. digits_value (fst p)) (filter (\<lambda>p. is_array_index (fst p)) obj)
       @ filter (\<lambda>p. \<not> is_array_index (fst p)) obj"

text \<open>
  \<^verbatim>\<open>Array.prototype.sort(comparefn)\<close> is a stable sort. For a comparator that is a
  difference of number keys the result of a stable sort is unique, so the insertion
  sort below computes what the runtime's sort returns. The sort looks at the sign of
  the comparator only; the difference of two doubles, rounded, has the sign of the exact
  difference and is zero for equal doubles only, so the comparator is the exact
  difference here.
\<close>

fun insert_by :: "('a \<Rightarrow> 'a \<Rightarrow> rat) \<Rightarrow> 'a \<Rightarrow> 'a list \<Rightarrow> 'a list" where
  "insert_by cmp x [] = [x]"
| "insert_by cmp x (y # ys) = (if cmp x y \<le> 0 then x # y # ys else y # insert_by cmp x ys)"

definition js_sort :: "('a \<Rightarrow> 'a \<Rightarrow> rat) \<Rightarrow> 'a list \<Rightarrow> 'a list" where
  "js_sort cmp xs = foldr (insert_by cmp) xs []"

subsection \<open>The fold over the reports\<close>

text \<open>
  An entry of \<^verbatim>\<open>siteVisitMap\<close> is the pair \<open>(visits, category)\<close>. In
  \<open>add_category\<close> the read \<^verbatim>\<open>categories[category] || 0\<close> is 0 for a key the
  object does not have; category names that are properties of every object (such as
  \<^verbatim>\<open>constructor\<close>) are outside the model.
\<close>

type_synonym site_map = "(string \<times> (rat \<times> string)) list"

definition add_category :: "(string \<times> rat) list \<Rightarrow> string \<times> rat \<Rightarrow> (string \<times> rat) list" where
  "add_category cats entry =
     (case entry of (cat, count') \<Rightarrow>
        map_set cat
          (js_plus (case map_of cats cat of None \<Rightarrow> 0 | Some v \<Rightarrow> (if v = 0 then 0 else v)) count')
          cats)"

definition add_site :: "(string \<Rightarrow> parsed_url option) \<Rightarrow> site_map \<Rightarrow> site \<Rightarrow> site_map" where
  "add_site URL siteVisitMap s =
     (let mainUrl = extractMainUrl URL (url s)
      in if map_has mainUrl siteVisitMap
         then (case map_of siteVisitMap mainUrl of
                 Some existing \<Rightarrow>
                   map_set mainUrl (js_plus (fst existing) (visits s), category s) siteVisitMap
               | None \<Rightarrow> siteVisitMap)
         else map_set mainUrl (visits s, category s) siteVisitMap)"

text \<open>One iteration of \<^verbatim>\<open>for (const report of reports)\<close> on the three accumulators.\<close>

definition aggregate_step ::
  "(string \<Rightarrow> parsed_url option) \<Rightarrow> rat \<times> (string \<times> rat) list \<times> site_map \<Rightarrow> DailyReport
     \<Rightarrow> rat \<times> (string \<times> rat) list \<times> site_map" where
  "aggregate_step URL acc report =
     (case acc of (total', cats, siteVisitMap) \<Rightarrow>
        (js_plus total' (totalVisits report),
         foldl add_category cats (Object_entries (categories report)),
         foldl (add_site URL) siteVisitMap (mostVisitedSites report)))"

definition aggregate_loop ::
  "(string \<Rightarrow> parsed_url option) \<Rightarrow> DailyReport list \<Rightarrow> rat \<times> (string \<times> rat) list \<times> site_map" where
  "aggregate_loop URL reports = foldl (aggregate_step URL) (0, [], []) reports"

definition siteVisitMap_of :: "(string \<Rightarrow> parsed_url option) \<Rightarrow> DailyReport list \<Rightarrow> site_map" where
  "siteVisitMap_of URL reports = snd (snd (aggregate_loop URL reports))"

definition site_of_entry :: "string \<times> (rat \<times> string) \<Rightarrow> site" where
  "site_of_entry e = \<lparr>url = fst e, category = snd (snd e), visits = fst (snd e)\<rparr>"

definition aggregateReports :: "(string \<Rightarrow> parsed_url option) \<Rightarrow> DailyReport list \<Rightarrow> DailyReport" where
  "aggregateReports URL reports =
     (case aggregate_loop URL reports of (total', cats, siteVisitMap) \<Rightarrow>
        (let sites = take 5 (js_sort (\<lambda>a b. visits b - visits a) (map site_of_entry siteVisitMap))
         in \<lparr>totalVisits = total',
             categories = cats,
             mostVisitedSites = sites,
             mostFrequentCategory =
               (case js_sort (\<lambda>a b. snd b - snd a) (Object_entries cats) of
                  [] \<Rightarrow> \<lparr>cf_category = ''General'', frequency = 0\<rparr>
                | m # _ \<Rightarrow> \<lparr>cf_category = fst m, frequency = snd m\<rparr>),
             mostFrequentSite =
               (case sites of
                  [] \<Rightarrow> \<lparr>url = [], category = ''General'', visits = 0\<rparr>
                | m # _ \<Rightarrow> \<lparr>url = url m, category = category m, visits = visits m\<rparr>)\<rparr>))"

section \<open>finalizeDailyReport\<close>

text \<open>
  The scan \<^verbatim>\<open>while (true)\<close> over the chunk keys stops at the first key with no
  (or a falsy) document. Nothing bounds it in the code, so it is a partial function:
  None stands for a scan that never stops.
\<close>

partial_function (option) collect_reports ::
  "redis \<Rightarrow> string \<Rightarrow> string \<Rightarrow> int \<Rightarrow> doc list \<Rightarrow> doc list option" where
  "collect_reports store date' email' chunkIndex reports =
     (case store (chunkKey date' email' (Num chunkIndex)) of
        None \<Rightarrow> Some reports
      | Some report \<Rightarrow>
          (if \<not> truthy report then Some reports
           else collect_reports store date' email' (chunkIndex + 1) (reports @ [report])))"

text \<open>
  The collected documents are used as reports. A document that is not a report has no
  \<^verbatim>\<open>categories\<close>, and \<^verbatim>\<open>Object.entries(undefined)\<close> throws a TypeError.
\<close>

fun as_reports :: "doc list \<Rightarrow> DailyReport list option" where
  "as_reports [] = Some []"
| "as_reports (ReportDoc r # ds) = (case as_reports ds of None \<Rightarrow> None | Some rs \<Rightarrow> Some (r # rs))"
| "as_reports (_ # ds) = None"

definition finalizeDailyReport_trace ::
  "(string \<Rightarrow> parsed_url option) \<Rightarrow> redis \<Rightarrow> string \<Rightarrow> string
     \<Rightarrow> (error + (redis_write list \<times> DailyReport)) option" where
  "finalizeDailyReport_trace URL store date' email' =
     (case collect_reports store date' email' 0 [] of
        None \<Rightarrow> None
      | Some reports \<Rightarrow>
          Some (if length reports = 0 then Inr ([], neutralReport)
                else (case as_reports reports of
                        None \<Rightarrow> Inl TypeError
                      | Some rs \<Rightarrow>
                          (let finalReport = aggregateReports URL rs
                           in Inr ([(reportKey date' email', ReportDoc finalReport)], finalReport)))))"

definition finalizeDailyReport ::
  "(string \<Rightarrow> parsed_url option) \<Rightarrow> redis \<Rightarrow> string \<Rightarrow> string
     \<Rightarrow> (error + (DailyReport \<times> redis)) option" where
  "finalizeDailyReport URL store date' email' =
     (case finalizeDailyReport_trace URL store date' email' of
        None \<Rightarrow> None
      | Some (Inl err) \<Rightarrow> Some (Inl err)
      | Some (Inr (ws, report)) \<Rightarrow> Some (Inr (report, apply_writes ws store)))"

section \<open>Notions used to state the properties, and example data\<close>


text \<open>The same with a value that may already be there.\<close>

fun group_fold :: "rat option \<Rightarrow> rat list \<Rightarrow> rat option" where
  "group_fold acc [] = acc"
| "group_fold None (x # xs) = group_fold (Some x) xs"
| "group_fold (Some v) (x # xs) = group_fold (Some (js_plus v x)) xs"


text \<open>The distinct elements of a list in the order of their first occurrence.\<close>

fun first_seen :: "'a list \<Rightarrow> 'a list" where
  "first_seen [] = []"
| "first_seen (x # xs) = x # filter (\<lambda>y. y \<noteq> x) (first_seen xs)"

text \<open>
  The chunk that a call at progress index \<open>i\<close> hands to the classifier: the slice
  \<^verbatim>\<open>history.slice(start, end)\<close> with \<^verbatim>\<open>start = i * chunkSize\<close> and
  \<^verbatim>\<open>end = start + chunkSize\<close>, as \<open>processNextChunk_trace\<close> computes it.
\<close>

definition current_chunk :: "history_item list \<Rightarrow> jsnum \<Rightarrow> int \<Rightarrow> history_item list" where
  "current_chunk h i chunkSize =
     js_slice h (js_mul i (Num chunkSize)) (js_add (js_mul i (Num chunkSize)) (Num chunkSize))"


text \<open>The history text of a chunk that has no null entry.\<close>

definition chunk_text :: "history_item list \<Rightarrow> string" where
  "chunk_text chunk = (case historyText chunk of Inl err \<Rightarrow> [] | Inr text \<Rightarrow> text)"

text \<open>
  The extraction as the specification words it, for comparison with \<open>jsonMatch\<close>:
  the first balanced \<^verbatim>\<open>{...}\<close> substring. \<open>balanced_scan\<close> reads from an opening
  brace and stops at the closing brace that brings the nesting depth back to zero;
  \<open>spec_first_balanced\<close> tries the opening braces from left to right.
\<close>

fun balanced_scan :: "nat \<Rightarrow> string \<Rightarrow> string option" where
  "balanced_scan depth [] = None"
| "balanced_scan depth (c # cs) =
     (if c = CHR ''{'' then map_option ((#) c) (balanced_scan (Suc depth) cs)
      else if c = CHR ''}''
        then (if depth \<le> 1 then Some [c] else map_option ((#) c) (balanced_scan (depth - 1) cs))
      else map_option ((#) c) (balanced_scan depth cs))"

fun spec_first_balanced :: "string \<Rightarrow> string option" where
  "spec_first_balanced [] = None"
| "spec_first_balanced (c # cs) =
     (if c = CHR ''{''
      then (case balanced_scan 0 (c # cs) of
              Some m \<Rightarrow> Some m
            | None \<Rightarrow> spec_first_balanced cs)
      else spec_first_balanced cs)"

text \<open>
  Example data: a history of three entries for the date \<open>d\<close> and the account \<open>u\<close>,
  the store before the first call and after the last one for chunks of size 2, a store
  whose history is the array with the single entry null, a
  classifier that always throws, one that always answers in prose, a parser that
  rejects every text, and the two chunk reports of the aggregation example
  with the answers of the URL parser on their URLs.
\<close>

definition example_items :: "history_item list" where
  "example_items =
     [HistoryItem (Some ''https://a.com/x'') (Some ''A''),
      HistoryItem (Some ''https://b.org/'') None,
      HistoryItem (Some ''https://a.com/y'') (Some ''B'')]"

definition example_store :: redis where
  "example_store = [redisKey ''d'' ''u'' \<mapsto> HistoryDoc (Some (Account ''u'' ''U'')) (Some example_items)]"

definition example_store_done :: redis where
  "example_store_done = example_store(progressKey ''d'' ''u'' \<mapsto> StrDoc ''2'')"


definition failing_groq :: "string \<Rightarrow> groq_result" where
  "failing_groq prompt = GroqThrows (Error ''timeout'')"


definition no_parse :: "string \<Rightarrow> DailyReport option" where
  "no_parse s = None"

definition example_URL :: "string \<Rightarrow> parsed_url option" where
  "example_URL s =
     (if s = ''https://a.com/x''
        then Some \<lparr>protocol = ''https:'', host = ''a.com'', pathname = ''/x''\<rparr>
      else if s = ''https://a.com/y''
        then Some \<lparr>protocol = ''https:'', host = ''a.com'', pathname = ''/y''\<rparr>
      else None)"



text \<open>A report with nothing but a total.\<close>

definition total_report :: "rat \<Rightarrow> DailyReport" where
  "total_report n = neutralReport\<lparr>totalVisits := n\<rparr>"

definition example_report1 :: DailyReport where
  "example_report1 =
     \<lparr>totalVisits = 5, categories = [(''News'', 3), (''Sports'', 2)],
      mostVisitedSites = [\<lparr>url = ''https://a.com/x'', category = ''News'', visits = 3\<rparr>],
      mostFrequentCategory = \<lparr>cf_category = ''News'', frequency = 3\<rparr>,
      mostFrequentSite = \<lparr>url = ''https://a.com/x'', category = ''News'', visits = 3\<rparr>\<rparr>"

definition example_report2 :: DailyReport where
  "example_report2 =
     \<lparr>totalVisits = 2, categories = [(''News'', 2)],
      mostVisitedSites = [\<lparr>url = ''https://a.com/y'', category = ''News'', visits = 2\<rparr>],
      mostFrequentCategory = \<lparr>cf_category = ''News'', frequency = 2\<rparr>,
      mostFrequentSite = \<lparr>url = ''https://a.com/y'', category = ''News'', visits = 2\<rparr>\<rparr>"

text \<open>
  A URL parser that rejects every string, and a report with six sites, three of them
  with 3 visits and two with 1 visit.
\<close>

definition no_URL :: "string \<Rightarrow> parsed_url option" where
  "no_URL s = None"

definition example_report3 :: DailyReport where
  "example_report3 =
     \<lparr>totalVisits = 13, categories = [(''General'', 13)],
      mostVisitedSites =
        [\<lparr>url = ''a'', category = ''General'', visits = 1\<rparr>,
         \<lparr>url = ''b'', category = ''General'', visits = 3\<rparr>,
         \<lparr>url = ''c'', category = ''General'', visits = 1\<rparr>,
         \<lparr>url = ''d'', category = ''General'', visits = 3\<rparr>,
         \<lparr>url = ''e'', category = ''General'', visits = 2\<rparr>,
         \<lparr>url = ''f'', category = ''General'', visits = 3\<rparr>],
      mostFrequentCategory = \<lparr>cf_category = ''General'', frequency = 13\<rparr>,
      mostFrequentSite = \<lparr>url = ''b'', category = ''General'', visits = 3\<rparr>\<rparr>"

text \<open>
  A reply of the classifier that has prose with braces after the JSON object, the
  report the object denotes, and the answers of \<^verbatim>\<open>JSON.parse\<close> on the texts that
  occur: the object alone parses, the object followed by more text does not.
\<close>

definition example_json :: string where
  "example_json =
     ''{\"totalVisits\":2,\"categories\":{\"News\":2},\"mostVisitedSites\":[],''
     @ ''\"mostFrequentCategory\":{\"category\":\"News\",\"frequency\":2},''
     @ ''\"mostFrequentSite\":{\"url\":\"\",\"category\":\"General\",\"visits\":0}}''"

definition example_response :: string where
  "example_response = ''Here is the report: '' @ example_json @ '' (format: {json})''"

definition example_parsed :: DailyReport where
  "example_parsed =
     \<lparr>totalVisits = 2, categories = [(''News'', 2)], mostVisitedSites = [],
      mostFrequentCategory = \<lparr>cf_category = ''News'', frequency = 2\<rparr>,
      mostFrequentSite = \<lparr>url = [], category = ''General'', visits = 0\<rparr>\<rparr>"

definition example_parse :: "string \<Rightarrow> DailyReport option" where
  "example_parse s = (if s = example_json then Some example_parsed else None)"

definition example_groq :: "string \<Rightarrow> groq_result" where
  "example_groq prompt = GroqContent (Some example_response)"

section \<open>Basic facts about the model\<close>

text \<open>The integer formula of \<open>ceil_div\<close> is the ceiling of the real quotient.\<close>

lemma ceil_div_ceiling:
  "b \<noteq> 0 \<Longrightarrow> ceil_div a b = Num \<lceil>real a / real_of_int b\<rceil>"
proof -
  assume "b \<noteq> 0"
  have "\<lceil>real a / real_of_int b\<rceil> = - \<lfloor>real_of_int (- int a) / real_of_int b\<rfloor>"
    by (simp add: ceiling_def)
  also have "\<dots> = - ((- int a) div b)"
    by (simp only: floor_divide_of_int_eq)
  finally show ?thesis using \<open>b \<noteq> 0\<close> by (simp add: ceil_div_def)
qed

lemma js_lt_not_ge: "js_lt a b \<Longrightarrow> \<not> js_ge a b"
  by (cases a; cases b) auto

subsection \<open>The four families of keys never collide\<close>

lemma chunkKey_neq_progressKey [simp]: "chunkKey d e i \<noteq> progressKey d' e'"
  by (simp add: chunkKey_def progressKey_def)

lemma chunkKey_neq_redisKey [simp]: "chunkKey d e i \<noteq> redisKey d' e'"
  by (simp add: chunkKey_def redisKey_def)

lemma progressKey_neq_redisKey [simp]: "progressKey d e \<noteq> redisKey d' e'"
  by (simp add: progressKey_def redisKey_def)

lemma reportKey_neq_chunkKey [simp]: "reportKey d e \<noteq> chunkKey d' e' i"
  by (simp add: chunkKey_def reportKey_def)

lemma progressKey_neq_chunkKey [simp]: "progressKey d e \<noteq> chunkKey d' e' i"
  by (simp add: chunkKey_def progressKey_def)

lemma redisKey_neq_chunkKey [simp]: "redisKey d e \<noteq> chunkKey d' e' i"
  by (simp add: chunkKey_def redisKey_def)

lemma redisKey_neq_progressKey [simp]: "redisKey d e \<noteq> progressKey d' e'"
  by (simp add: progressKey_def redisKey_def)

lemma redisKey_neq_reportKey [simp]: "redisKey d e \<noteq> reportKey d' e'"
  by (simp add: reportKey_def redisKey_def)

lemma progressKey_neq_reportKey [simp]: "progressKey d e \<noteq> reportKey d' e'"
  by (simp add: reportKey_def progressKey_def)

lemma reportKey_neq_redisKey [simp]: "reportKey d e \<noteq> redisKey d' e'"
  by (simp add: reportKey_def redisKey_def)

lemma reportKey_neq_progressKey [simp]: "reportKey d e \<noteq> progressKey d' e'"
  by (simp add: reportKey_def progressKey_def)

lemma chunkKey_neq_reportKey [simp]: "chunkKey d e i \<noteq> reportKey d' e'"
  by (simp add: chunkKey_def reportKey_def)

text \<open>A write under a chunk key is not seen by the reads of the history and of the progress.\<close>

lemma getHistory_chunk_write [simp]:
  "getHistory (store(chunkKey d e i \<mapsto> v)) d' e' = getHistory store d' e'"
  by (simp add: getHistory_def)

lemma getChunkProgress_chunk_write [simp]:
  "getChunkProgress (store(chunkKey d e i \<mapsto> v)) d' e' = getChunkProgress store d' e'"
  by (simp add: getChunkProgress_def)

subsection \<open>The history text\<close>

lemma item_lines_null: "NullItem \<in> set chunk \<Longrightarrow> item_lines chunk = Inl TypeError"
proof (induction chunk)
  case Nil
  then show ?case by simp
next
  case (Cons item items)
  show ?case
  proof (cases item)
    case NullItem
    then show ?thesis by simp
  next
    case (HistoryItem u t)
    with Cons show ?thesis by simp
  qed
qed

lemma item_lines_no_null: "NullItem \<notin> set chunk \<Longrightarrow> \<exists>lines. item_lines chunk = Inr lines"
proof (induction chunk)
  case Nil
  then show ?case by simp
next
  case (Cons item items)
  then obtain lines where "item_lines items = Inr lines"
    by auto
  with Cons.prems show ?case
    by (cases item) auto
qed

lemma historyText_null: "NullItem \<in> set chunk \<Longrightarrow> historyText chunk = Inl TypeError"
  by (simp add: historyText_def item_lines_null)

lemma historyText_no_null: "NullItem \<notin> set chunk \<Longrightarrow> historyText chunk = Inr (chunk_text chunk)"
  using item_lines_no_null [of chunk] by (auto simp: historyText_def chunk_text_def)

lemma analyzeChunk_null: "NullItem \<in> set chunk \<Longrightarrow> analyzeChunk groq P chunk = Inl TypeError"
  by (simp add: analyzeChunk_def historyText_null)

lemma analyzeChunk_no_null:
  "NullItem \<notin> set chunk \<Longrightarrow>
   analyzeChunk groq P chunk = Inr (analyzeChunk_catch groq P (chunk_text chunk))"
  by (simp add: analyzeChunk_def historyText_no_null)

lemma analyzeChunk_cases:
  "analyzeChunk groq P chunk =
     (if NullItem \<in> set chunk then Inl TypeError
      else Inr (analyzeChunk_catch groq P (chunk_text chunk)))"
  by (simp add: analyzeChunk_null analyzeChunk_no_null)

lemma chunk_text_Nil [simp]: "chunk_text [] = []"
  by (simp add: chunk_text_def historyText_def)

subsection \<open>The two branches of processNextChunk\<close>

lemma trace_terminal:
  assumes "getHistory store d e = Inr (a, h)"
    and "js_ge (getChunkProgress store d e) (ceil_div (length h) chunkSize)"
  shows "processNextChunk_trace groq P store d e chunkSize = Inr ([], \<lparr>completed = True\<rparr>)"
  using assms by (simp add: processNextChunk_trace_def)

lemma trace_advance:
  assumes "getHistory store d e = Inr (a, h)"
    and "\<not> js_ge (getChunkProgress store d e) (ceil_div (length h) chunkSize)"
  shows "processNextChunk_trace groq P store d e chunkSize =
     (if NullItem \<in> set (current_chunk h (getChunkProgress store d e) chunkSize)
      then Inl TypeError
      else Inr ([(chunkKey d e (getChunkProgress store d e),
                  ReportDoc (analyzeChunk_catch groq P
                    (chunk_text (current_chunk h (getChunkProgress store d e) chunkSize)))),
                 (progressKey d e,
                  StrDoc (js_toString (js_add (getChunkProgress store d e) (Num 1))))],
                \<lparr>completed = False\<rparr>))"
  using assms
  by (simp add: processNextChunk_trace_def Let_def setChunkProgress_def current_chunk_def
      analyzeChunk_cases)

lemma example_getHistory_done:
  "getHistory example_store_done ''d'' ''u'' = Inr (Account ''u'' ''U'', example_items)"
  by (simp add: getHistory_def example_store_done_def example_store_def redisKey_def progressKey_def)

lemma example_progress_done:
  "getChunkProgress example_store_done ''d'' ''u'' = Num 2"
  by (simp add: getChunkProgress_def example_store_done_def progressKey_def parseInt_def
      is_white_space_def is_digit_def digits_value_def)

subsection \<open>Evaluation of the examples\<close>

lemma digit_char_simps:
  "digit_char 0 = CHR ''0''" "digit_char 1 = CHR ''1''" "digit_char 2 = CHR ''2''"
  "digit_char 3 = CHR ''3''" "digit_char 4 = CHR ''4''" "digit_char 5 = CHR ''5''"
  "digit_char 6 = CHR ''6''" "digit_char 7 = CHR ''7''" "digit_char 8 = CHR ''8''"
  "digit_char 9 = CHR ''9''" "digit_char (Suc 0) = CHR ''1''"
  by code_simp+

lemma example_keys:
  "chunkKey ''d'' ''u'' (Num 0) = ''chunk-report:d:u:0''"
  "progressKey ''d'' ''u'' = ''chunk-progress:d:u''"
  "redisKey ''d'' ''u'' = ''browser-history:d:u''"
  "reportKey ''d'' ''u'' = ''daily-report:d:u''"
  by (simp_all add: chunkKey_def progressKey_def redisKey_def reportKey_def dec_of_nat.simps digit_char_simps)


lemma example_getHistory:
  "getHistory example_store ''d'' ''u'' = Inr (Account ''u'' ''U'', example_items)"
  by (simp add: getHistory_def example_store_def)

lemma example_progress:
  "getChunkProgress example_store ''d'' ''u'' = Num 0"
  by (simp add: getChunkProgress_def example_store_def)

lemma example_chunk0: "current_chunk example_items (Num 0) 2 = take 2 example_items"
  by (simp add: current_chunk_def js_slice_def example_items_def)

lemma example_items_no_null: "NullItem \<notin> set example_items"
  by (simp add: example_items_def)

lemma example_chunk_no_null: "NullItem \<notin> set (current_chunk example_items i chunkSize)"
  using example_items_no_null
  by (auto simp: current_chunk_def js_slice_def Let_def dest: in_set_takeD in_set_dropD)

subsection \<open>Failure of the classification\<close>


lemma failing_groq_neutral [simp]: "analyzeChunk_catch failing_groq no_parse text = neutralReport"
  by (simp add: analyzeChunk_catch_def analyzeChunk_try_def failing_groq_def)

subsection \<open>The addition of doubles\<close>

lemma bit_length_le:
  "n < 2 ^ k \<Longrightarrow> bit_length n \<le> int k"
proof (induction k arbitrary: n)
  case 0
  then show ?case by (simp add: bit_length.simps [of n])
next
  case (Suc k)
  show ?case
  proof (cases "n \<le> 0")
    case True
    then show ?thesis by (simp add: bit_length.simps [of n])
  next
    case False
    from Suc.prems have "n div 2 < 2 ^ k" by simp
    from Suc.IH [OF this] False show ?thesis
      by (simp add: bit_length.simps [of n])
  qed
qed

lemma bit_length_nonneg: "0 \<le> bit_length n"
proof (induction n rule: bit_length.induct)
  case (1 n)
  then show ?case by (simp add: bit_length.simps [of n])
qed

lemma bit_length_pow53: "bit_length 9007199254740992 = 54"
  by code_simp

lemma round_half_even_of_int [simp]: "round_half_even (of_int z) = z"
  by (simp add: round_half_even_def)

lemma scale2_of_int_neg:
  "e \<le> 0 \<Longrightarrow> scale2 (of_int z) (- e) = of_int (z * 2 ^ nat (- e))"
  by (simp add: scale2_def)

lemma scale2_back:
  "e \<le> 0 \<Longrightarrow> scale2 (of_int (z * 2 ^ nat (- e))) e = of_int z"
  by (auto simp: scale2_def)

lemma round_double_of_int:
  assumes "\<bar>z\<bar> \<le> 9007199254740992"
  shows "round_double (of_int z) = of_int z"
proof (cases "z = 0")
  case True
  then show ?thesis by (simp add: round_double_def)
next
  case False
  then have one: "(1::rat) \<le> \<bar>of_int z\<bar>"
    by (metis abs_ge_zero of_int_1_le_iff of_int_abs linorder_not_less zero_less_abs_iff int_one_le_iff_zero_less)
  have fl: "floor_log2 \<bar>of_int z\<bar> = bit_length \<bar>z\<bar> - 1"
    using one by (simp add: floor_log2_def flip: of_int_abs)
  show ?thesis
  proof (cases "\<bar>z\<bar> = 9007199254740992")
    case True
    then have e: "max (floor_log2 \<bar>of_int z\<bar> - 52) (- 1074) = 1"
      by (simp add: fl bit_length_pow53)
    from True have "z = 9007199254740992 \<or> z = - 9007199254740992"
      by auto
    then show ?thesis
      using False e by (auto simp: round_double_def scale2_def round_half_even_def)
  next
    case False
    with assms have "\<bar>z\<bar> < 2 ^ 53" by simp
    then have "bit_length \<bar>z\<bar> \<le> 53"
      using bit_length_le [of "\<bar>z\<bar>" 53] by simp
    then have e: "max (floor_log2 \<bar>of_int z\<bar> - 52) (- 1074) \<le> 0"
      by (simp add: fl)
    define E where "E = max (floor_log2 \<bar>of_int z\<bar> - 52) (- 1074)"
    from e have E: "E \<le> 0" by (simp add: E_def)
    have "scale2 (of_int (round_half_even (scale2 (of_int z) (- E)))) E = of_int z"
      by (simp only: scale2_of_int_neg [OF E] round_half_even_of_int scale2_back [OF E])
    then show ?thesis
      using \<open>z \<noteq> 0\<close> by (simp add: round_double_def Let_def E_def)
  qed
qed

lemma js_plus_exact:
  assumes "a \<in> \<int>" and "b \<in> \<int>" and "\<bar>a + b\<bar> \<le> 9007199254740992"
  shows "js_plus a b = a + b"
proof -
  from assms(1,2) obtain z where z: "a + b = of_int z"
    by (metis Ints_add Ints_cases)
  with assms(3) have "\<bar>z\<bar> \<le> 9007199254740992"
    by (metis of_int_abs of_int_le_iff of_int_numeral)
  from round_double_of_int [OF this] z show ?thesis
    by (simp add: js_plus_def)
qed

text \<open>
  The rounding on fractions: the doubles nearest to 0.1 and 0.2 add up to the double
  that prints as 0.30000000000000004.
\<close>

lemma js_plus_tenths:
  "js_plus (3602879701896397 / 36028797018963968) (3602879701896397 / 18014398509481984)
     = 1351079888211149 / 4503599627370496"
  by code_simp

lemma foldl_js_plus_exact:
  assumes "acc \<in> \<int>" and "0 \<le> acc"
    and "\<forall>x\<in>set xs. x \<in> \<int> \<and> 0 \<le> x"
    and "acc + sum_list xs \<le> 9007199254740992"
  shows "foldl js_plus acc xs = acc + sum_list xs"
  using assms
proof (induction xs arbitrary: acc)
  case Nil
  then show ?case by simp
next
  case (Cons x xs)
  from Cons.prems have x: "x \<in> \<int>" "0 \<le> x" and rest: "\<forall>y\<in>set xs. y \<in> \<int> \<and> 0 \<le> y"
    by simp_all
  from rest have "0 \<le> sum_list xs"
    by (simp add: sum_list_nonneg)
  with Cons.prems x have bound: "\<bar>acc + x\<bar> \<le> 9007199254740992"
    by simp
  have step: "js_plus acc x = acc + x"
    using Cons.prems(1) x(1) bound by (rule js_plus_exact)
  have "foldl js_plus (acc + x) xs = (acc + x) + sum_list xs"
  proof (rule Cons.IH)
    show "acc + x \<in> \<int>" using Cons.prems(1) x(1) by simp
    show "0 \<le> acc + x" using Cons.prems(2) x(2) by simp
    show "\<forall>y\<in>set xs. y \<in> \<int> \<and> 0 \<le> y" by (rule rest)
    show "acc + x + sum_list xs \<le> 9007199254740992" using Cons.prems(4) by (simp add: add.assoc)
  qed
  with step show ?case by (simp add: add.assoc)
qed

lemma sum_list_Ints: "\<forall>x\<in>set xs. x \<in> \<int> \<Longrightarrow> sum_list xs \<in> (\<int> :: rat set)"
  by (induction xs) auto

lemma sum_list_map_nonneg:
  "\<forall>r\<in>set rs. f r \<in> \<int> \<and> 0 \<le> f r \<Longrightarrow> 0 \<le> sum_list (map f rs) \<and> sum_list (map f rs) \<in> (\<int> :: rat set)"
  by (induction rs) auto

subsection \<open>The accumulators of the aggregation loop\<close>

lemma loop_total:
  "fst (foldl (aggregate_step URL) acc rs) = foldl js_plus (fst acc) (map totalVisits rs)"
  by (induction rs arbitrary: acc) (auto simp: aggregate_step_def split: prod.splits)

lemma aggregateReports_totalVisits:
  "totalVisits (aggregateReports URL rs) = fst (aggregate_loop URL rs)"
  by (simp add: aggregateReports_def Let_def split: prod.splits)

lemma aggregateReports_mostVisitedSites:
  "mostVisitedSites (aggregateReports URL rs) =
     take 5 (js_sort (\<lambda>a b. visits b - visits a) (map site_of_entry (siteVisitMap_of URL rs)))"
  by (simp add: aggregateReports_def siteVisitMap_of_def Let_def split: prod.splits)

lemma totalVisits_aggregateReports:
  "totalVisits (aggregateReports URL rs) = foldl js_plus 0 (map totalVisits rs)"
  using loop_total [of URL "(0, [], [])" rs]
  by (simp add: aggregateReports_totalVisits aggregate_loop_def)

lemma totalVisits_exact:
  assumes "\<forall>r\<in>set rs. totalVisits r \<in> \<int> \<and> 0 \<le> totalVisits r"
    and "sum_list (map totalVisits rs) \<le> 9007199254740992"
  shows "totalVisits (aggregateReports URL rs) = sum_list (map totalVisits rs)"
proof -
  have "foldl js_plus 0 (map totalVisits rs) = 0 + sum_list (map totalVisits rs)"
    using assms by (intro foldl_js_plus_exact) auto
  then show ?thesis by (simp add: totalVisits_aggregateReports)
qed

lemma aggregate_step_fields:
  "totalVisits r = totalVisits r' \<Longrightarrow> categories r = categories r' \<Longrightarrow>
   mostVisitedSites r = mostVisitedSites r' \<Longrightarrow>
   aggregate_step URL acc r = aggregate_step URL acc r'"
  by (simp add: aggregate_step_def)

lemma aggregate_loop_fields:
  "length rs = length rs' \<Longrightarrow>
   \<forall>i<length rs. totalVisits (rs ! i) = totalVisits (rs' ! i) \<and> categories (rs ! i) = categories (rs' ! i)
      \<and> mostVisitedSites (rs ! i) = mostVisitedSites (rs' ! i) \<Longrightarrow>
   foldl (aggregate_step URL) acc rs = foldl (aggregate_step URL) acc rs'"
proof (induction rs rs' arbitrary: acc rule: list_induct2)
  case Nil
  then show ?case by simp
next
  case (Cons r rs r' rs')
  from Cons.prems have first: "aggregate_step URL acc r = aggregate_step URL acc r'"
    by (intro aggregate_step_fields) (use Cons.prems in force)+
  from Cons.prems have rest: "\<forall>i<length rs. totalVisits (rs ! i) = totalVisits (rs' ! i) \<and> categories (rs ! i) = categories (rs' ! i)
      \<and> mostVisitedSites (rs ! i) = mostVisitedSites (rs' ! i)"
    by fastforce
  show ?case using Cons.IH [OF rest] first by simp
qed

subsection \<open>The site map\<close>


lemma keys_map_set:
  "map fst (map_set k v m) = (if k \<in> set (map fst m) then map fst m else map fst m @ [k])"
  by (induction m) auto

text \<open>Both branches of the update are one \<open>map_set\<close>.\<close>

lemma add_site_eq:
  "add_site URL m s =
     map_set (extractMainUrl URL (url s))
       (case map_of m (extractMainUrl URL (url s)) of
          None \<Rightarrow> (visits s, category s)
        | Some existing \<Rightarrow> (js_plus (fst existing) (visits s), category s)) m"
  by (auto simp: add_site_def map_has_def Let_def split: option.splits)


lemma group_fold_append:
  "group_fold acc (xs @ ys) = group_fold (group_fold acc xs) ys"
  by (induction acc xs rule: group_fold.induct) auto








lemma site_map_loop:
  "snd (snd (foldl (aggregate_step URL) acc rs)) =
     foldl (add_site URL) (snd (snd acc)) (concat (map mostVisitedSites rs))"
  by (induction rs arbitrary: acc) (auto simp: aggregate_step_def split: prod.splits)

lemma siteVisitMap_of_foldl:
  "siteVisitMap_of URL rs = foldl (add_site URL) [] (concat (map mostVisitedSites rs))"
  by (simp add: siteVisitMap_of_def aggregate_loop_def site_map_loop)



lemma mset_insert_by: "mset (insert_by cmp x ys) = add_mset x (mset ys)"
  by (induction ys) auto

lemma mset_js_sort: "mset (js_sort cmp xs) = mset xs"
  by (induction xs) (auto simp: js_sort_def mset_insert_by)

text \<open>New keys are appended, so the keys stand in the order in which they were first seen.\<close>

lemma keys_foldl_order:
  "map fst (foldl (add_site URL) m ss) =
     map fst m @ filter (\<lambda>k. k \<notin> set (map fst m))
       (first_seen (map (\<lambda>s. extractMainUrl URL (url s)) ss))"
proof (induction ss arbitrary: m)
  case Nil
  then show ?case by simp
next
  case (Cons s ss)
  let ?k = "extractMainUrl URL (url s)"
  show ?case
  proof (cases "?k \<in> set (map fst m)")
    case True
    then have keys: "map fst (add_site URL m s) = map fst m"
      by (simp add: add_site_eq keys_map_set)
    have "filter (\<lambda>k. k \<notin> set (map fst m)) (filter (\<lambda>y. y \<noteq> ?k) xs)
            = filter (\<lambda>k. k \<notin> set (map fst m)) xs" for xs
      using True by (induction xs) auto
    with True keys show ?thesis
      by (simp add: Cons.IH)
  next
    case False
    then have keys: "map fst (add_site URL m s) = map fst m @ [?k]"
      by (simp add: add_site_eq keys_map_set)
    have "filter (\<lambda>k. k \<notin> set (map fst m) \<and> k \<noteq> ?k) xs
            = filter (\<lambda>k. k \<notin> set (map fst m)) (filter (\<lambda>y. y \<noteq> ?k) xs)" for xs
      by (induction xs) auto
    with False keys show ?thesis
      by (simp add: Cons.IH)
  qed
qed

subsection \<open>The sort\<close>

lemma set_insert_by: "set (insert_by cmp x ys) = insert x (set ys)"
  by (induction ys) auto

lemma sorted_insert_by:
  "sorted_wrt (\<lambda>a b. f b \<le> f a) ys \<Longrightarrow>
   sorted_wrt (\<lambda>a b. f b \<le> f a) (insert_by (\<lambda>a b. f b - f a) x ys)"
  for f :: "'a \<Rightarrow> rat"
  by (induction ys) (auto simp: set_insert_by)

lemma sorted_js_sort:
  "sorted_wrt (\<lambda>a b. f b \<le> f a) (js_sort (\<lambda>a b. f b - f a) xs)"
  for f :: "'a \<Rightarrow> rat"
  by (induction xs) (auto simp: js_sort_def sorted_insert_by)

lemma filter_insert_by:
  "filter (\<lambda>s. f s = v) (insert_by (\<lambda>a b. f b - f a) x ys) =
     (if f x = v then x # filter (\<lambda>s. f s = v) ys else filter (\<lambda>s. f s = v) ys)"
  for f :: "'a \<Rightarrow> rat"
  by (induction ys) auto

lemma filter_js_sort:
  "filter (\<lambda>s. f s = v) (js_sort (\<lambda>a b. f b - f a) xs) = filter (\<lambda>s. f s = v) xs"
  for f :: "'a \<Rightarrow> rat"
  by (induction xs) (auto simp: js_sort_def filter_insert_by)

subsection \<open>The aggregation example\<close>







lemma example_top5:
  "map url (mostVisitedSites (aggregateReports no_URL [example_report3]))
     = [''b'', ''d'', ''f'', ''e'', ''a'']"
  by (simp add: aggregateReports_mostVisitedSites siteVisitMap_of_foldl example_report3_def
      add_site_def extractMainUrl_def no_URL_def map_has_def js_sort_def site_of_entry_def)

subsection \<open>The progress counter read back from the store\<close>

lemma of_char_digit_char: "d < 10 \<Longrightarrow> of_char (digit_char d) = (48 + d :: nat)"
  by (simp add: digit_char_def of_char_of)

lemma is_digit_digit_char: "d < 10 \<Longrightarrow> is_digit (digit_char d)"
  by (simp add: is_digit_def of_char_digit_char)

lemma digits_value_snoc: "digits_value (ds @ [c]) = 10 * digits_value ds + (of_char c - 48)"
  by (simp add: digits_value_def)

lemma dec_of_nat_props:
  "dec_of_nat n \<noteq> [] \<and> list_all is_digit (dec_of_nat n) \<and> digits_value (dec_of_nat n) = n"
proof (induction n rule: dec_of_nat.induct)
  case (1 n)
  show ?case
  proof (cases "n < 10")
    case True
    then show ?thesis
      by (simp add: dec_of_nat.simps [of n] is_digit_digit_char digits_value_def of_char_digit_char)
  next
    case False
    with 1 have IH: "dec_of_nat (n div 10) \<noteq> []" "list_all is_digit (dec_of_nat (n div 10))"
      "digits_value (dec_of_nat (n div 10)) = n div 10"
      by simp_all
    have "n mod 10 < 10" by simp
    with False IH show ?thesis
      by (simp add: dec_of_nat.simps [of n] is_digit_digit_char digits_value_snoc of_char_digit_char)
  qed
qed

lemma is_digit_not_special:
  "is_digit c \<Longrightarrow> \<not> is_white_space c \<and> c \<noteq> CHR ''-'' \<and> c \<noteq> CHR ''+''"
  by (auto simp: is_digit_def is_white_space_def)

lemma parseInt_digits:
  assumes "ds \<noteq> []" and "list_all is_digit ds"
  shows "parseInt ds = Num (int (digits_value ds))"
    and "parseInt (CHR ''-'' # ds) = Num (- int (digits_value ds))"
proof -
  from assms obtain c cs where ds: "ds = c # cs" and c: "is_digit c"
    by (cases ds) auto
  from assms(2) have tw: "takeWhile is_digit ds = ds"
    by (simp add: list_all_iff)
  from c have sp: "\<not> is_white_space c" "c \<noteq> CHR ''-''" "c \<noteq> CHR ''+''"
    using is_digit_not_special by blast+
  from sp assms(1) show "parseInt ds = Num (int (digits_value ds))"
    using tw by (simp add: parseInt_def ds Let_def)
  have "\<not> is_white_space CHR ''-''"
    by (simp add: is_white_space_def)
  with assms(1) show "parseInt (CHR ''-'' # ds) = Num (- int (digits_value ds))"
    by (simp add: parseInt_def Let_def tw)
qed

lemma parseInt_js_toString: "parseInt (js_toString (Num i)) = Num i"
  using dec_of_nat_props parseInt_digits by (cases "i < 0") simp_all

lemma js_toString_Num_nonempty: "js_toString (Num i) \<noteq> []"
  using dec_of_nat_props by simp

text \<open>After a complete non-terminal call at index i the progress read is i + 1.\<close>

lemma progress_after_advance:
  assumes "getHistory store d e = Inr (a, h)"
    and "getChunkProgress store d e = Num i"
    and "\<not> js_ge (Num i) (ceil_div (length h) chunkSize)"
    and "NullItem \<notin> set (current_chunk h (Num i) chunkSize)"
  shows "\<exists>store'. processNextChunk groq P store d e chunkSize = Inr (\<lparr>completed = False\<rparr>, store')
           \<and> getChunkProgress store' d e = Num (i + 1)
           \<and> getHistory store' d e = Inr (a, h)"
  using trace_advance [of store d e a h chunkSize groq P] assms
  by (simp add: processNextChunk_def apply_writes_def getChunkProgress_def getHistory_def
      parseInt_js_toString js_toString_Num_nonempty del: js_toString.simps)

subsection \<open>A chunk size that is not positive gives empty chunks\<close>







section \<open>The claims\<close>

subsection \<open>C1: the terminal state is idempotent\<close>

text \<open>
  C1. In every job state in which the stored progress index is at least
  \<open>totalChunks = ceil (length history / chunkSize)\<close> (the comparison \<^verbatim>\<open>>=\<close> of the
  code), \<^verbatim>\<open>processNextChunk\<close> returns \<open>completed = True\<close> and performs no write: its
  list of writes is empty and the store it leaves is the store it found, chunk reports
  and progress included. The state is unchanged, so every repeated call, whatever the
  classifier would answer, returns \<open>completed = True\<close> again and leaves the same store.
\<close>

theorem terminal_state_idempotent:
  assumes "getHistory store d e = Inr (a, h)"
    and "js_ge (getChunkProgress store d e) (ceil_div (length h) chunkSize)"
  shows "processNextChunk_trace groq P store d e chunkSize = Inr ([], \<lparr>completed = True\<rparr>)
       \<and> processNextChunk groq P store d e chunkSize = Inr (\<lparr>completed = True\<rparr>, store)
       \<and> processNextChunk_repeat gs P store d e chunkSize
            = Inr (replicate (length gs) \<lparr>completed = True\<rparr>, store)"
proof -
  have t: "processNextChunk_trace g P store d e chunkSize = Inr ([], \<lparr>completed = True\<rparr>)" for g
    using assms by (rule trace_terminal)
  have p: "processNextChunk g P store d e chunkSize = Inr (\<lparr>completed = True\<rparr>, store)" for g
    by (simp add: processNextChunk_def t apply_writes_def)
  have "processNextChunk_repeat gs P store d e chunkSize
            = Inr (replicate (length gs) \<lparr>completed = True\<rparr>, store)"
    by (induction gs) (simp_all add: p)
  with t p show ?thesis by simp
qed

text \<open>
  The example: three entries in chunks of two make two chunks, and the stored progress
  is 2. The call and two further calls report completion and leave the store as it was.
\<close>

theorem terminal_state_idempotent_witness:
  "processNextChunk failing_groq no_parse example_store_done ''d'' ''u'' 2
      = Inr (\<lparr>completed = True\<rparr>, example_store_done)
   \<and> processNextChunk_repeat [failing_groq, failing_groq] no_parse example_store_done ''d'' ''u'' 2
      = Inr ([\<lparr>completed = True\<rparr>, \<lparr>completed = True\<rparr>], example_store_done)"
proof -
  have g: "js_ge (getChunkProgress example_store_done ''d'' ''u'') (ceil_div (length example_items) 2)"
    by (simp add: example_progress_done ceil_div_def example_items_def)
  show ?thesis
    using terminal_state_idempotent [OF example_getHistory_done g, of failing_groq no_parse
        "[failing_groq, failing_groq]"]
    by simp
qed

subsection \<open>C2: the report is written before the progress\<close>

text \<open>
  C2. In every call with a current progress index \<open>i\<close> below \<open>totalChunks\<close>,
  \<^verbatim>\<open>processNextChunk\<close> performs exactly two writes, in this order: the chunk report
  under the key of index \<open>i\<close>, then the progress \<open>i + 1\<close>; the only other outcome
  is the TypeError of a chunk with a null entry, which is raised before any write. A
  call that stops after the first write leaves a store that differs from the old one at
  the chunk key only: the stored progress is still \<open>i\<close>, and the next call, whatever
  the classifier answers then, works on the same chunk, writes the report of index
  \<open>i\<close> again and then sets the progress to \<open>i + 1\<close>. No index is passed over.
\<close>

theorem report_written_before_progress:
  assumes "getHistory store d e = Inr (a, h)"
    and "getChunkProgress store d e = i"
    and "js_lt i (ceil_div (length h) chunkSize)"
  shows "processNextChunk_trace groq P store d e chunkSize
           = (if NullItem \<in> set (current_chunk h i chunkSize) then Inl TypeError
              else Inr ([(chunkKey d e i,
                          ReportDoc (analyzeChunk_catch groq P (chunk_text (current_chunk h i chunkSize)))),
                         (progressKey d e, StrDoc (js_toString (js_add i (Num 1))))],
                        \<lparr>completed = False\<rparr>))
       \<and> processNextChunk_interrupted 1 groq P store d e chunkSize
           = (if NullItem \<in> set (current_chunk h i chunkSize) then store
              else store(chunkKey d e i \<mapsto>
                     ReportDoc (analyzeChunk_catch groq P (chunk_text (current_chunk h i chunkSize)))))
       \<and> getChunkProgress (processNextChunk_interrupted 1 groq P store d e chunkSize) d e = i
       \<and> processNextChunk_trace groq' P (processNextChunk_interrupted 1 groq P store d e chunkSize)
             d e chunkSize
           = (if NullItem \<in> set (current_chunk h i chunkSize) then Inl TypeError
              else Inr ([(chunkKey d e i,
                          ReportDoc (analyzeChunk_catch groq' P (chunk_text (current_chunk h i chunkSize)))),
                         (progressKey d e, StrDoc (js_toString (js_add i (Num 1))))],
                        \<lparr>completed = False\<rparr>))"
proof -
  let ?chunk = "current_chunk h i chunkSize"
  let ?store1 = "processNextChunk_interrupted 1 groq P store d e chunkSize"
  from assms(2,3) have ng: "\<not> js_ge (getChunkProgress store d e) (ceil_div (length h) chunkSize)"
    by (simp add: js_lt_not_ge)
  have t: "processNextChunk_trace g P store d e chunkSize
           = (if NullItem \<in> set ?chunk then Inl TypeError
              else Inr ([(chunkKey d e i, ReportDoc (analyzeChunk_catch g P (chunk_text ?chunk))),
                         (progressKey d e, StrDoc (js_toString (js_add i (Num 1))))],
                        \<lparr>completed = False\<rparr>))" for g
    using trace_advance [OF assms(1) ng, of g P] assms(2) by simp
  have c: "?store1
           = (if NullItem \<in> set ?chunk then store
              else store(chunkKey d e i \<mapsto> ReportDoc (analyzeChunk_catch groq P (chunk_text ?chunk))))"
    by (simp add: processNextChunk_interrupted_def t apply_writes_def)
  have h1: "getHistory ?store1 d e = Inr (a, h)"
    unfolding c using assms(1) by simp
  have p1: "getChunkProgress ?store1 d e = i"
    unfolding c using assms(2) by simp
  from p1 ng assms(2) have ng1: "\<not> js_ge (getChunkProgress ?store1 d e) (ceil_div (length h) chunkSize)"
    by simp
  have t1: "processNextChunk_trace groq' P ?store1 d e chunkSize
           = (if NullItem \<in> set ?chunk then Inl TypeError
              else Inr ([(chunkKey d e i, ReportDoc (analyzeChunk_catch groq' P (chunk_text ?chunk))),
                         (progressKey d e, StrDoc (js_toString (js_add i (Num 1))))],
                        \<lparr>completed = False\<rparr>))"
    using trace_advance [OF h1 ng1, of groq' P] by (simp only: p1)
  from t c p1 t1 show ?thesis by (intro conjI) assumption+
qed

text \<open>
  The example: the first call on the fresh store writes the report of index 0, then
  the progress 1; after the first write alone the progress read is still 0.
\<close>

theorem report_written_before_progress_witness:
  "processNextChunk_trace failing_groq no_parse example_store ''d'' ''u'' 2
     = Inr ([(chunkKey ''d'' ''u'' (Num 0), ReportDoc neutralReport),
             (progressKey ''d'' ''u'', StrDoc ''1'')],
            \<lparr>completed = False\<rparr>)
   \<and> getChunkProgress (processNextChunk_interrupted 1 failing_groq no_parse example_store ''d'' ''u'' 2)
        ''d'' ''u'' = Num 0"
proof -
  have l: "js_lt (Num 0) (ceil_div (length example_items) 2)"
    by (simp add: ceil_div_def example_items_def)
  show ?thesis
    using report_written_before_progress [OF example_getHistory example_progress l, of failing_groq no_parse failing_groq]
    by (simp add: example_chunk_no_null example_progress dec_of_nat.simps digit_char_simps)
qed

subsection \<open>C3: a failed classification becomes the neutral report\<close>




subsection \<open>C4: sites are grouped by origin and their visits summed\<close>




subsection \<open>C5: the top sites are a stable descending sort, cut at five\<close>

text \<open>
  C5. The aggregated \<^verbatim>\<open>mostVisitedSites\<close> are the first five elements (at most) of a
  list \<open>S\<close> that is a rearrangement of the site groups, is sorted by visits in
  descending order, and keeps groups of equal visits in the order they have in the site
  map; the site map holds the groups in the order in which their keys were first seen.
\<close>

theorem mostVisitedSites_sorted_stable_top5:
  "\<exists>S. mostVisitedSites (aggregateReports URL rs) = take 5 S
      \<and> mset S = mset (map site_of_entry (siteVisitMap_of URL rs))
      \<and> sorted_wrt (\<lambda>a b. visits b \<le> visits a) S
      \<and> (\<forall>v. filter (\<lambda>s. visits s = v) S
               = filter (\<lambda>s. visits s = v) (map site_of_entry (siteVisitMap_of URL rs)))
      \<and> map url (map site_of_entry (siteVisitMap_of URL rs))
          = first_seen (map (\<lambda>s. extractMainUrl URL (url s)) (concat (map mostVisitedSites rs)))
      \<and> length (mostVisitedSites (aggregateReports URL rs)) \<le> 5"
proof -
  let ?G = "map site_of_entry (siteVisitMap_of URL rs)"
  let ?S = "js_sort (\<lambda>a b. visits b - visits a) ?G"
  have order: "map url ?G
      = first_seen (map (\<lambda>s. extractMainUrl URL (url s)) (concat (map mostVisitedSites rs)))"
    using keys_foldl_order [of URL "[]" "concat (map mostVisitedSites rs)"]
    by (simp add: siteVisitMap_of_foldl site_of_entry_def comp_def)
  have "mostVisitedSites (aggregateReports URL rs) = take 5 ?S"
    by (rule aggregateReports_mostVisitedSites)
  moreover have "mset ?S = mset ?G"
    by (rule mset_js_sort)
  moreover have "sorted_wrt (\<lambda>a b. visits b \<le> visits a) ?S"
    by (rule sorted_js_sort)
  moreover have "\<forall>v. filter (\<lambda>s. visits s = v) ?S = filter (\<lambda>s. visits s = v) ?G"
    by (simp add: filter_js_sort)
  moreover have "length (mostVisitedSites (aggregateReports URL rs)) \<le> 5"
    by (simp add: aggregateReports_mostVisitedSites)
  ultimately show ?thesis using order by blast
qed

text \<open>
  The example: of six groups with the visits 1, 3, 1, 3, 2, 3 the aggregate keeps five;
  the three groups with 3 visits come first in the order in which they were seen, and
  of the two groups with 1 visit the one seen first is kept.
\<close>

theorem mostVisitedSites_sorted_stable_top5_witness:
  "map url (mostVisitedSites (aggregateReports no_URL [example_report3]))
     = [''b'', ''d'', ''f'', ''e'', ''a'']
   \<and> length (mostVisitedSites (aggregateReports no_URL [example_report3])) \<le> 5
   \<and> length (siteVisitMap_of no_URL [example_report3]) = 6"
proof -
  have "length (mostVisitedSites (aggregateReports no_URL [example_report3])) \<le> 5"
    using mostVisitedSites_sorted_stable_top5 [of no_URL "[example_report3]"] by blast
  moreover have "length (siteVisitMap_of no_URL [example_report3]) = 6"
    by (simp add: siteVisitMap_of_foldl example_report3_def
      add_site_def extractMainUrl_def no_URL_def map_has_def)
  ultimately show ?thesis
    by (simp add: example_top5)
qed

subsection \<open>C6: the chunk size is not validated\<close>




subsection \<open>C7: the match runs from the first opening to the last closing brace\<close>

lemma example_jsonMatch:
  "jsonMatch example_response = Some (example_json @ '' (format: {json}'')"
  by (simp add: jsonMatch_def example_response_def example_json_def)

lemma example_first_balanced:
  "spec_first_balanced example_response = Some example_json"
  by (simp add: example_response_def example_json_def)

text \<open>
  The claim as stated fails: on the example reply the code's match is the JSON object
  together with the prose up to the last closing brace, not the first balanced
  substring. The balanced substring parses to a report; the match does not parse, and
  \<^verbatim>\<open>analyzeChunk\<close> returns the neutral report.
\<close>

theorem first_balanced_counterexample:
  "jsonMatch example_response = Some (example_json @ '' (format: {json}'')
   \<and> spec_first_balanced example_response = Some example_json
   \<and> example_parse example_json = Some example_parsed
   \<and> example_parse (example_json @ '' (format: {json}'') = None
   \<and> analyzeChunk example_groq example_parse example_items = Inr neutralReport
   \<and> example_parsed \<noteq> neutralReport"
  by (simp add: example_jsonMatch example_first_balanced analyzeChunk_no_null example_items_no_null
      analyzeChunk_catch_def analyzeChunk_try_def
      example_groq_def example_parse_def example_parsed_def neutralReport_def)

lemma jsonMatch_SomeD:
  assumes "jsonMatch s = Some m"
  shows "\<exists>pre mid post. s = pre @ m @ post \<and> m = CHR ''{'' # mid @ [CHR ''}'']
           \<and> CHR ''{'' \<notin> set pre \<and> CHR ''}'' \<notin> set post"
proof -
  let ?pre = "takeWhile (\<lambda>c. c \<noteq> CHR ''{'') s"
  let ?t = "dropWhile (\<lambda>c. c \<noteq> CHR ''{'') s"
  from assms have t: "?t \<noteq> []" and cl: "CHR ''}'' \<in> set (tl ?t)"
    and m: "m = CHR ''{'' # rev (dropWhile (\<lambda>c. c \<noteq> CHR ''}'') (rev (tl ?t)))"
    by (auto simp: jsonMatch_def Let_def split: if_splits)
  from t have hd: "hd ?t = CHR ''{''"
    using hd_dropWhile [of "\<lambda>c. c \<noteq> CHR ''{''" s] by simp
  let ?body = "tl ?t"
  let ?D = "dropWhile (\<lambda>c. c \<noteq> CHR ''}'') (rev ?body)"
  let ?T = "takeWhile (\<lambda>c. c \<noteq> CHR ''}'') (rev ?body)"
  from cl have D: "?D \<noteq> []"
    by (simp add: dropWhile_eq_Nil_conv) 
  then have hdD: "hd ?D = CHR ''}''"
    using hd_dropWhile [of "\<lambda>c. c \<noteq> CHR ''}''" "rev ?body"] by simp
  from D hdD obtain D' where D': "?D = CHR ''}'' # D'"
    by (cases ?D) auto
  have "rev ?body = ?T @ ?D"
    by simp
  then have "?body = rev ?D @ rev ?T"
    by (metis rev_append rev_rev_ident)
  with t hd have "?t = CHR ''{'' # rev ?D @ rev ?T"
    by (cases ?t) auto
  then have s: "s = ?pre @ m @ rev ?T"
    using m takeWhile_dropWhile_id [of "\<lambda>c. c \<noteq> CHR ''{''" s] by simp
  have p: "CHR ''{'' \<notin> set ?pre"
    using set_takeWhileD by fastforce
  have q: "CHR ''}'' \<notin> set (rev ?T)"
    using set_takeWhileD by fastforce
  from m D' have "m = CHR ''{'' # rev D' @ [CHR ''}'']"
    by simp
  with s p q show ?thesis by blast
qed

lemma jsonMatch_SomeI:
  assumes "CHR ''{'' \<notin> set pre" and "CHR ''}'' \<notin> set post"
  shows "jsonMatch (pre @ (CHR ''{'' # mid @ [CHR ''}'']) @ post) = Some (CHR ''{'' # mid @ [CHR ''}''])"
proof -
  from assms(1) have "\<forall>x\<in>set pre. x \<noteq> CHR ''{''"
    by auto
  then have t: "dropWhile (\<lambda>c. c \<noteq> CHR ''{'') (pre @ CHR ''{'' # mid @ CHR ''}'' # post)
      = CHR ''{'' # mid @ CHR ''}'' # post"
    by (simp add: dropWhile_append3)
  from assms(2) have "\<forall>x\<in>set (rev post). x \<noteq> CHR ''}''"
    by auto
  then have "dropWhile (\<lambda>c. c \<noteq> CHR ''}'') (rev post @ CHR ''}'' # rev mid) = CHR ''}'' # rev mid"
    by (simp add: dropWhile_append3)
  with t show ?thesis
    by (simp add: jsonMatch_def)
qed

text \<open>
  C7, amended. For every response string the extracted text is the substring from the
  first opening brace to the last closing brace of the response, when the response has
  an opening brace with a closing brace after it, and there is no match otherwise. That
  text is what is parsed as the chunk report; with no match, or a match that does not
  parse, the result is the neutral report.
\<close>

theorem jsonMatch_first_to_last_brace:
  "(jsonMatch s = Some m \<longleftrightarrow>
      (\<exists>pre mid post. s = pre @ m @ post \<and> m = CHR ''{'' # mid @ [CHR ''}'']
          \<and> CHR ''{'' \<notin> set pre \<and> CHR ''}'' \<notin> set post))
   \<and> analyzeChunk_catch groq P text =
       (case groq text of
          GroqThrows err \<Rightarrow> neutralReport
        | GroqContent content \<Rightarrow>
            (case jsonMatch (case content of None \<Rightarrow> [] | Some c \<Rightarrow> c) of
               None \<Rightarrow> neutralReport
             | Some m \<Rightarrow> (case P m of None \<Rightarrow> neutralReport | Some report \<Rightarrow> report)))
   \<and> analyzeChunk groq P chunk =
       (case historyText chunk of
          Inl err \<Rightarrow> Inl err
        | Inr text \<Rightarrow>
            Inr (case groq text of
                   GroqThrows err \<Rightarrow> neutralReport
                 | GroqContent content \<Rightarrow>
                     (case jsonMatch (case content of None \<Rightarrow> [] | Some c \<Rightarrow> c) of
                        None \<Rightarrow> neutralReport
                      | Some m \<Rightarrow> (case P m of None \<Rightarrow> neutralReport | Some report \<Rightarrow> report))))"
proof -
  have a: "jsonMatch s = Some m \<longleftrightarrow>
      (\<exists>pre mid post. s = pre @ m @ post \<and> m = CHR ''{'' # mid @ [CHR ''}'']
          \<and> CHR ''{'' \<notin> set pre \<and> CHR ''}'' \<notin> set post)"
    using jsonMatch_SomeD [of s m] jsonMatch_SomeI by blast
  have b: "analyzeChunk_catch g P t =
       (case g t of
          GroqThrows err \<Rightarrow> neutralReport
        | GroqContent content \<Rightarrow>
            (case jsonMatch (case content of None \<Rightarrow> [] | Some c \<Rightarrow> c) of
               None \<Rightarrow> neutralReport
             | Some m \<Rightarrow> (case P m of None \<Rightarrow> neutralReport | Some report \<Rightarrow> report)))" for g t
    by (simp add: analyzeChunk_catch_def analyzeChunk_try_def Let_def split: groq_result.splits option.splits)
  have c: "analyzeChunk groq P chunk =
       (case historyText chunk of
          Inl err \<Rightarrow> Inl err
        | Inr text \<Rightarrow>
            Inr (case groq text of
                   GroqThrows err \<Rightarrow> neutralReport
                 | GroqContent content \<Rightarrow>
                     (case jsonMatch (case content of None \<Rightarrow> [] | Some c \<Rightarrow> c) of
                        None \<Rightarrow> neutralReport
                      | Some m \<Rightarrow> (case P m of None \<Rightarrow> neutralReport | Some report \<Rightarrow> report))))"
    by (simp add: analyzeChunk_def b split: sum.splits)
  from a b [of groq "text"] c show ?thesis by (intro conjI) assumption+
qed

text \<open>
  Two braced groups with text between them are matched as one text; on the example
  reply the result is the neutral report.
\<close>

theorem jsonMatch_first_to_last_brace_witness:
  "jsonMatch ''ab {x} c {y} d'' = Some ''{x} c {y}''
   \<and> analyzeChunk_catch example_groq example_parse [] = neutralReport"
proof -
  have "''ab {x} c {y} d'' = ''ab '' @ ''{x} c {y}'' @ '' d'' \<and> ''{x} c {y}'' = CHR ''{'' # ''x} c {y'' @ [CHR ''}'']
      \<and> CHR ''{'' \<notin> set ''ab '' \<and> CHR ''}'' \<notin> set '' d''"
    by simp
  then have "jsonMatch ''ab {x} c {y} d'' = Some ''{x} c {y}''"
    using jsonMatch_first_to_last_brace [of "''ab {x} c {y} d''" "''{x} c {y}''"] by blast
  moreover have "analyzeChunk_catch example_groq example_parse [] = neutralReport"
    using jsonMatch_first_to_last_brace [of "[]" "[]" example_groq example_parse "[]" "[]"]
    by (simp add: example_groq_def example_jsonMatch example_parse_def)
  ultimately show ?thesis by simp
qed

subsection \<open>C8: the total of a concatenation and the totals of its parts\<close>

text \<open>
  The claim as stated fails: the totals are doubles and their addition rounds. For
  \<open>A\<close> the single report with the total \<open>2^53\<close> and \<open>B\<close> two reports with the
  total 1, the aggregate of \<open>A @ B\<close> has the total \<open>2^53\<close>, since adding 1 to
  \<open>2^53\<close> gives \<open>2^53\<close> again, while the totals of the two aggregates add up to
  \<open>2^53 + 2\<close>, in exact arithmetic and with the addition of the code alike.
\<close>

theorem totalVisits_append_counterexample:
  "totalVisits (aggregateReports no_URL ([total_report 9007199254740992] @ [total_report 1, total_report 1]))
     = 9007199254740992
   \<and> totalVisits (aggregateReports no_URL [total_report 9007199254740992])
       + totalVisits (aggregateReports no_URL [total_report 1, total_report 1])
     = 9007199254740994
   \<and> js_plus (totalVisits (aggregateReports no_URL [total_report 9007199254740992]))
       (totalVisits (aggregateReports no_URL [total_report 1, total_report 1]))
     = 9007199254740994"
proof -
  have a: "js_plus 0 9007199254740992 = 9007199254740992" "js_plus 0 1 = 1" "js_plus 1 1 = 2"
    by (simp_all add: js_plus_exact)
  have b: "js_plus 9007199254740992 1 = 9007199254740992"
    by code_simp
  have c: "js_plus 9007199254740992 2 = 9007199254740994"
    by code_simp
  show ?thesis
    by (simp add: totalVisits_aggregateReports total_report_def a b c)
qed

text \<open>
  C8, amended. For every sequence of chunk reports whose \<^verbatim>\<open>totalVisits\<close> are
  non-negative integers with a sum of at most \<open>2^53\<close>, and every split of it into a
  prefix \<open>A\<close> and a suffix \<open>B\<close>, the \<^verbatim>\<open>totalVisits\<close> of the aggregate of
  \<open>A @ B\<close> is the sum of the \<^verbatim>\<open>totalVisits\<close> of the aggregate of \<open>A\<close> and of the
  aggregate of \<open>B\<close>, and it is the exact sum of the inputs.
\<close>

theorem totalVisits_append_exact:
  assumes "\<forall>r\<in>set (A @ B). totalVisits r \<in> \<int> \<and> 0 \<le> totalVisits r"
    and "sum_list (map totalVisits (A @ B)) \<le> 9007199254740992"
  shows "totalVisits (aggregateReports URL (A @ B))
           = totalVisits (aggregateReports URL A) + totalVisits (aggregateReports URL B)
       \<and> totalVisits (aggregateReports URL (A @ B))
           = js_plus (totalVisits (aggregateReports URL A)) (totalVisits (aggregateReports URL B))
       \<and> totalVisits (aggregateReports URL (A @ B)) = sum_list (map totalVisits (A @ B))"
proof -
  from assms(1) have nnA: "\<forall>r\<in>set A. totalVisits r \<in> \<int> \<and> 0 \<le> totalVisits r"
    and nnB: "\<forall>r\<in>set B. totalVisits r \<in> \<int> \<and> 0 \<le> totalVisits r"
    by auto
  from nnA have sA: "0 \<le> sum_list (map totalVisits A)" "sum_list (map totalVisits A) \<in> \<int>"
    using sum_list_map_nonneg [of A totalVisits] by simp_all
  from nnB have sB: "0 \<le> sum_list (map totalVisits B)" "sum_list (map totalVisits B) \<in> \<int>"
    using sum_list_map_nonneg [of B totalVisits] by simp_all
  from assms(2) sA sB have bA: "sum_list (map totalVisits A) \<le> 9007199254740992"
    and bB: "sum_list (map totalVisits B) \<le> 9007199254740992"
    by simp_all
  have tAB: "totalVisits (aggregateReports URL (A @ B)) = sum_list (map totalVisits (A @ B))"
    using assms by (rule totalVisits_exact)
  have tA: "totalVisits (aggregateReports URL A) = sum_list (map totalVisits A)"
    using nnA bA by (rule totalVisits_exact)
  have tB: "totalVisits (aggregateReports URL B) = sum_list (map totalVisits B)"
    using nnB bB by (rule totalVisits_exact)
  have "js_plus (sum_list (map totalVisits A)) (sum_list (map totalVisits B))
          = sum_list (map totalVisits A) + sum_list (map totalVisits B)"
    using sA sB assms(2) by (intro js_plus_exact) simp_all
  with tAB tA tB show ?thesis by simp
qed

text \<open>The example of the specification: the totals 5 and 2 give 7.\<close>

theorem totalVisits_append_exact_witness:
  "totalVisits (aggregateReports example_URL ([example_report1] @ [example_report2]))
     = totalVisits (aggregateReports example_URL [example_report1])
       + totalVisits (aggregateReports example_URL [example_report2])
   \<and> totalVisits (aggregateReports example_URL ([example_report1] @ [example_report2])) = 7"
proof -
  have i: "\<forall>r\<in>set ([example_report1] @ [example_report2]). totalVisits r \<in> \<int> \<and> 0 \<le> totalVisits r"
    by (simp add: example_report1_def example_report2_def)
  have b: "sum_list (map totalVisits ([example_report1] @ [example_report2])) \<le> 9007199254740992"
    by (simp add: example_report1_def example_report2_def)
  from totalVisits_append_exact [OF i b, of example_URL] show ?thesis
    by (simp add: example_report1_def example_report2_def)
qed

subsection \<open>C9: finalize without chunk reports\<close>

text \<open>
  C9. Whenever the store has no document under the chunk key of index 0,
  \<^verbatim>\<open>finalizeDailyReport\<close> returns, with no error, the neutral report, and performs
  no write: the store it leaves is the store it found, so nothing is stored under the
  daily-report key.
\<close>

theorem finalize_without_chunk_reports:
  assumes "store (chunkKey d e (Num 0)) = None"
  shows "finalizeDailyReport_trace URL store d e = Some (Inr ([], neutralReport))
       \<and> finalizeDailyReport URL store d e = Some (Inr (neutralReport, store))"
proof -
  have "collect_reports store d e 0 [] = Some []"
    by (subst collect_reports.simps) (simp add: assms)
  then have t: "finalizeDailyReport_trace URL store d e = Some (Inr ([], neutralReport))"
    by (simp add: finalizeDailyReport_trace_def)
  then show ?thesis
    by (simp add: finalizeDailyReport_def apply_writes_def)
qed

text \<open>
  The example: the fresh store has a history and no chunk report; finalize returns the
  neutral report and the daily-report key stays empty.
\<close>

theorem finalize_without_chunk_reports_witness:
  "finalizeDailyReport example_URL example_store ''d'' ''u'' = Some (Inr (neutralReport, example_store))
   \<and> example_store (reportKey ''d'' ''u'') = None"
proof -
  have "example_store (chunkKey ''d'' ''u'' (Num 0)) = None"
    by (simp add: example_store_def)
  moreover have "example_store (reportKey ''d'' ''u'') = None"
    by (simp add: example_store_def)
  ultimately show ?thesis
    using finalize_without_chunk_reports [of example_store "''d''" "''u''" example_URL] by simp
qed


subsection \<open>C10: only three fields of the input reports are read\<close>

text \<open>
  C10. The result of \<^verbatim>\<open>aggregateReports\<close> depends only on the fields
  \<^verbatim>\<open>totalVisits\<close>, \<^verbatim>\<open>categories\<close> and \<^verbatim>\<open>mostVisitedSites\<close> of its input: two
  sequences of reports of equal length that agree on these three fields at every
  position have the same aggregate, whatever their \<^verbatim>\<open>mostFrequentCategory\<close> and
  \<^verbatim>\<open>mostFrequentSite\<close> fields hold.
\<close>

theorem aggregateReports_reads_three_fields:
  assumes "length rs = length rs'"
    and "\<forall>i<length rs. totalVisits (rs ! i) = totalVisits (rs' ! i)
            \<and> categories (rs ! i) = categories (rs' ! i)
            \<and> mostVisitedSites (rs ! i) = mostVisitedSites (rs' ! i)"
  shows "aggregateReports URL rs = aggregateReports URL rs'"
  using aggregate_loop_fields [OF assms, of URL "(0, [], [])"]
  by (simp add: aggregateReports_def aggregate_loop_def)

text \<open>
  The example: the first report of the aggregation example, and the same report with
  other values in the two fields that are not read.
\<close>

theorem aggregateReports_reads_three_fields_witness:
  "aggregateReports example_URL [example_report1]
     = aggregateReports example_URL
         [example_report1\<lparr>mostFrequentCategory := \<lparr>cf_category = ''Travel'', frequency = 99\<rparr>,
                          mostFrequentSite := \<lparr>url = ''https://z.net/'', category = ''Travel'', visits = 99\<rparr>\<rparr>]
   \<and> mostFrequentCategory example_report1 \<noteq> \<lparr>cf_category = ''Travel'', frequency = 99\<rparr>"
proof -
  have "aggregateReports example_URL [example_report1]
     = aggregateReports example_URL
         [example_report1\<lparr>mostFrequentCategory := \<lparr>cf_category = ''Travel'', frequency = 99\<rparr>,
                          mostFrequentSite := \<lparr>url = ''https://z.net/'', category = ''Travel'', visits = 99\<rparr>\<rparr>]"
    by (rule aggregateReports_reads_three_fields) simp_all
  then show ?thesis
    by (simp add: example_report1_def)
qed

end
